theory Spec2Isabelle
  imports Complex_Main
begin

section \<open>Thumbnail worker: data model\<close>

text \<open>
  The embedding follows \<^verbatim>\<open>zerver/worker/thumbnail.py\<close>. The function
  \<^verbatim>\<open>ensure_thumbnails\<close> mutates the in-memory \<^verbatim>\<open>ImageAttachment\<close> object, talks to
  the blob store and to the database, and may raise. The model threads the in-memory object
  and a world (database rows and a log of the external calls) through the function and
  returns \<open>Inl\<close> for an exception that leaves the function.
\<close>

type_synonym bytes = string

text \<open>
  \<^verbatim>\<open>ThumbnailFormat\<close> is declared in \<^verbatim>\<open>zerver/lib/thumbnail.py\<close>; the worker reads
  these five attributes of it.
\<close>

record thumbnail_format =
  extension :: string
  max_width :: int
  max_height :: int
  animated :: bool
  opts :: string

text \<open>
  The keyword arguments of the \<^verbatim>\<open>StoredThumbnailFormat(...)\<close> call; \<^verbatim>\<open>asdict\<close> turns
  the dataclass into a dict with exactly these keys.
\<close>

record stored_thumbnail_format =
  st_extension :: string
  st_content_type :: string
  st_max_width :: int
  st_max_height :: int
  st_animated :: bool
  st_width :: int
  st_height :: int
  st_byte_size :: int

record image_attachment =
  att_id :: int
  path_id :: string
  original_width_px :: int
  original_height_px :: int
  frames :: int
  thumbnail_metadata :: "stored_thumbnail_format list"

text \<open>
  What the worker observes of a \<^verbatim>\<open>pyvips.Image\<close>: its width, its height (the whole
  canvas; a multi-page image keeps its pages stacked vertically in one image) and the
  optional metadata field \<^verbatim>\<open>page-height\<close> (the height of one page).
\<close>

record vips_image =
  vwidth :: int
  vheight :: int
  vpage_height :: "int option"

datatype vips_size = SizeBoth | SizeUp | SizeDown | SizeForce

text \<open>
  Exceptions. Only \<open>PyvipsError\<close> (\<^verbatim>\<open>pyvips.Error\<close>) is caught by
  \<^verbatim>\<open>ensure_thumbnails\<close>; every other one leaves the function.
\<close>

datatype error = PyvipsError | AssertionError | UploadFailure | StorageError | DatabaseError

datatype io_event =
    EvFetch string
  | EvResize int int string vips_size
  | EvUpload string string bytes
  | EvDelete int
  | EvSave int "string list"

record world =
  rows :: "int \<rightharpoonup> image_attachment"
  io_log :: "io_event list"

definition log_event :: "io_event \<Rightarrow> world \<Rightarrow> world" where
  "log_event ev w = w\<lparr>io_log := io_log w @ [ev]\<rparr>"

text \<open>
  The collaborators that are not part of the worker: the catalogue
  \<^verbatim>\<open>THUMBNAIL_OUTPUT_FORMATS\<close>, the blob store, pyvips, the MIME table and the path
  scheme. They are parameters of the model.
\<close>

record env =
  catalogue :: "thumbnail_format list"
  save_attachment_contents :: "string \<Rightarrow> error + bytes"
  thumbnail_buffer :: "bytes \<Rightarrow> int \<Rightarrow> int \<Rightarrow> string \<Rightarrow> vips_size \<Rightarrow> error + vips_image"
  write_to_buffer :: "vips_image \<Rightarrow> string \<Rightarrow> error + bytes"
  guess_type :: "string \<Rightarrow> string option \<times> string option"
  get_image_thumbnail_path :: "image_attachment \<Rightarrow> thumbnail_format \<Rightarrow> string"
  upload_message_attachment :: "string \<Rightarrow> string \<Rightarrow> bytes \<Rightarrow> error option"

section \<open>The missing-format resolver\<close>

definition same_format :: "thumbnail_format \<Rightarrow> stored_thumbnail_format \<Rightarrow> bool" where
  "same_format f s \<longleftrightarrow>
     st_extension s = extension f \<and> st_max_width s = max_width f \<and>
     st_max_height s = max_height f \<and> st_animated s = animated f"

text \<open>
  Modelled from the spec: \<^verbatim>\<open>missing_thumbnails\<close> lives in
  \<^verbatim>\<open>zerver/lib/thumbnail.py\<close>, which is not among the sources. Section 4.1: for each
  catalogue entry, include it unless an entry with the same (extension, max_width,
  max_height, animated) already exists in thumbnail_metadata; the result follows catalogue
  order; the frame count plays no role.
\<close>

definition missing_thumbnails :: "thumbnail_format list \<Rightarrow> image_attachment \<Rightarrow> thumbnail_format list" where
  "missing_thumbnails cat a =
     filter (\<lambda>f. \<not> list_ex (same_format f) (thumbnail_metadata a)) cat"

section \<open>Database operations\<close>

text \<open>
  \<^verbatim>\<open>Model.save(update_fields=...)\<close> writes the named columns of the in-memory object
  to the row with the object's primary key and raises \<^verbatim>\<open>DatabaseError\<close> when no row is
  affected. \<^verbatim>\<open>Model.delete()\<close> removes the row; it also clears the primary key of the
  in-memory object, which the worker does not use afterwards and the model leaves as it is.
\<close>

definition copy_field :: "image_attachment \<Rightarrow> string \<Rightarrow> image_attachment \<Rightarrow> image_attachment" where
  "copy_field obj name row =
     (if name = ''thumbnail_metadata'' then row\<lparr>thumbnail_metadata := thumbnail_metadata obj\<rparr>
      else if name = ''path_id'' then row\<lparr>path_id := path_id obj\<rparr>
      else if name = ''original_width_px'' then row\<lparr>original_width_px := original_width_px obj\<rparr>
      else if name = ''original_height_px'' then row\<lparr>original_height_px := original_height_px obj\<rparr>
      else if name = ''frames'' then row\<lparr>frames := frames obj\<rparr>
      else row)"

definition model_save :: "string list \<Rightarrow> image_attachment \<Rightarrow> world \<Rightarrow> error option \<times> world" where
  "model_save update_fields obj w =
     (let w1 = log_event (EvSave (att_id obj) update_fields) w in
      case rows w1 (att_id obj) of
        None \<Rightarrow> (Some DatabaseError, w1)
      | Some row \<Rightarrow>
          (None, w1\<lparr>rows := (rows w1)(att_id obj \<mapsto> foldr (copy_field obj) update_fields row)\<rparr>))"

definition model_delete :: "image_attachment \<Rightarrow> world \<Rightarrow> world" where
  "model_delete obj w =
     (let w1 = log_event (EvDelete (att_id obj)) w in
      w1\<lparr>rows := (rows w1)(att_id obj := None)\<rparr>)"

section \<open>The resize-and-upload pipeline\<close>

text \<open>Lines 65 to 73: the option string handed to the loader.\<close>

definition load_opts :: "image_attachment \<Rightarrow> thumbnail_format \<Rightarrow> string" where
  "load_opts a f =
     (if frames a > 1 then (if animated f then ''n=-1'' else ''n=1'') else '''')"

text \<open>\<^verbatim>\<open>Image.get\<close> raises \<^verbatim>\<open>pyvips.Error\<close> when the field does not exist.\<close>

definition get_page_height :: "vips_image \<Rightarrow> error + int" where
  "get_page_height img = (case vpage_height img of None \<Rightarrow> Inl PyvipsError | Some h \<Rightarrow> Inr h)"

text \<open>
  The body of the loop up to the construction of the \<^verbatim>\<open>StoredThumbnailFormat\<close>
  (lines 65 to 107). The calls to the logger are left out.
\<close>

definition process_format ::
  "env \<Rightarrow> bytes \<Rightarrow> thumbnail_format \<Rightarrow> image_attachment \<Rightarrow> world
     \<Rightarrow> (error + stored_thumbnail_format) \<times> world" where
  "process_format E image_bytes f a w =
     (let w1 = log_event (EvResize (max_width f) (max_height f) (load_opts a f) SizeDown) w in
      case thumbnail_buffer E image_bytes (max_width f) (max_height f) (load_opts a f) SizeDown of
        Inl e \<Rightarrow> (Inl e, w1)
      | Inr resized \<Rightarrow>
         (case write_to_buffer E resized (''.'' @ extension f @ ''['' @ opts f @ '']'') of
            Inl e \<Rightarrow> (Inl e, w1)
          | Inr thumbnailed_bytes \<Rightarrow>
             (case fst (guess_type E (''image.'' @ extension f)) of
                None \<Rightarrow> (Inl AssertionError, w1)
              | Some content_type \<Rightarrow>
                 (let thumbnail_path = get_image_thumbnail_path E a f;
                      w2 = log_event (EvUpload thumbnail_path content_type thumbnailed_bytes) w1 in
                  case upload_message_attachment E thumbnail_path content_type thumbnailed_bytes of
                    Some e \<Rightarrow> (Inl e, w2)
                  | None \<Rightarrow>
                     (case (if animated f then get_page_height resized else Inr (vheight resized)) of
                        Inl e \<Rightarrow> (Inl e, w2)
                      | Inr height \<Rightarrow>
                         (Inr \<lparr>st_extension = extension f,
                               st_content_type = content_type,
                               st_max_width = max_width f,
                               st_max_height = max_height f,
                               st_animated = animated f,
                               st_width = vwidth resized,
                               st_height = height,
                               st_byte_size = int (length thumbnailed_bytes)\<rparr>, w2))))))"

text \<open>
  The \<^verbatim>\<open>for\<close> loop (lines 55 to 109): the state is the in-memory attachment, the counter
  \<^verbatim>\<open>written_images\<close> and the world. The first component of the result is the exception
  that ended the loop, if any.
\<close>

fun thumbnail_loop ::
  "env \<Rightarrow> bytes \<Rightarrow> thumbnail_format list \<Rightarrow> image_attachment \<Rightarrow> int \<Rightarrow> world
     \<Rightarrow> error option \<times> image_attachment \<times> int \<times> world" where
  "thumbnail_loop E image_bytes [] a written_images w = (None, a, written_images, w)"
| "thumbnail_loop E image_bytes (f # fs) a written_images w =
     (case process_format E image_bytes f a w of
        (Inl e, w') \<Rightarrow> (Some e, a, written_images, w')
      | (Inr s, w') \<Rightarrow>
          thumbnail_loop E image_bytes fs
            (a\<lparr>thumbnail_metadata := thumbnail_metadata a @ [s]\<rparr>) (written_images + 1) w')"

text \<open>Lines 121 to 123.\<close>

definition save_and_return ::
  "image_attachment \<Rightarrow> int \<Rightarrow> world \<Rightarrow> (error + int) \<times> image_attachment \<times> world" where
  "save_and_return a written_images w =
     (case model_save [''thumbnail_metadata''] a w of
        (Some e, w') \<Rightarrow> (Inl e, a, w')
      | (None, w') \<Rightarrow> (Inr written_images, a, w'))"

definition ensure_thumbnails ::
  "env \<Rightarrow> image_attachment \<Rightarrow> world \<Rightarrow> (error + int) \<times> image_attachment \<times> world" where
  "ensure_thumbnails E image_attachment w =
     (let needed_thumbnails = missing_thumbnails (catalogue E) image_attachment in
      if needed_thumbnails = [] then (Inr 0, image_attachment, w)
      else
        (let w1 = log_event (EvFetch (path_id image_attachment)) w in
         case save_attachment_contents E (path_id image_attachment) of
           Inl e \<Rightarrow> (Inl e, image_attachment, w1)
         | Inr image_bytes \<Rightarrow>
            (case thumbnail_loop E image_bytes needed_thumbnails image_attachment 0 w1 of
               (None, a, written_images, w2) \<Rightarrow> save_and_return a written_images w2
             | (Some e, a, written_images, w2) \<Rightarrow>
                 if e = PyvipsError then
                   (if written_images = 0 \<and> length (thumbnail_metadata a) = 0
                    then (Inr 0, a, model_delete a w2)
                    else save_and_return a written_images w2)
                 else (Inl e, a, w2))))"

section \<open>Reading the log and the metadata\<close>

text \<open>Events that write to the database.\<close>

fun is_db_event :: "io_event \<Rightarrow> bool" where
  "is_db_event (EvSave i names) = True"
| "is_db_event (EvDelete i) = True"
| "is_db_event ev = False"

text \<open>The resize call that the loop makes for one format.\<close>

definition resize_event :: "image_attachment \<Rightarrow> thumbnail_format \<Rightarrow> io_event" where
  "resize_event a f = EvResize (max_width f) (max_height f) (load_opts a f) SizeDown"

fun is_resize :: "io_event \<Rightarrow> bool" where
  "is_resize (EvResize mw mh os sz) = True"
| "is_resize ev = False"

text \<open>
  The entry \<open>s\<close> carries the dimensions of the image that the resize for format \<open>f\<close>
  returns: its width, and as height its \<^verbatim>\<open>page-height\<close> field when \<open>f\<close> is animated and
  its height otherwise (line 94).
\<close>

definition recorded_from ::
  "env \<Rightarrow> bytes \<Rightarrow> image_attachment \<Rightarrow> thumbnail_format \<Rightarrow> stored_thumbnail_format \<Rightarrow> bool" where
  "recorded_from E buf a f s =
     (case thumbnail_buffer E buf (max_width f) (max_height f) (load_opts a f) SizeDown of
        Inl e \<Rightarrow> False
      | Inr resized \<Rightarrow>
          st_width s = vwidth resized \<and>
          (if animated f then vpage_height resized = Some (st_height s)
           else st_height s = vheight resized))"

section \<open>The geometry of the pyvips thumbnail operation\<close>

text \<open>
  The height of one page of an image: the \<^verbatim>\<open>page-height\<close> field when there is one,
  the height of the image otherwise.
\<close>

definition vips_page_height :: "vips_image \<Rightarrow> int" where
  "vips_page_height img = (case vpage_height img of Some p \<Rightarrow> p | None \<Rightarrow> vheight img)"


text \<open>
  The horizontal and vertical scale for an image of \<open>w \<times> h\<close> and a box of
  \<open>mw \<times> mh\<close>. \<open>SizeDown\<close> never enlarges, \<open>SizeUp\<close> never reduces,
  \<open>SizeForce\<close> gives up the aspect ratio.
\<close>

definition vips_scale :: "vips_size \<Rightarrow> int \<Rightarrow> int \<Rightarrow> int \<Rightarrow> int \<Rightarrow> rat \<times> rat" where
  "vips_scale sz w h mw mh =
     (let hs = of_int mw / of_int w; vs = of_int mh / of_int h; s = min hs vs in
      case sz of
        SizeBoth \<Rightarrow> (s, s)
      | SizeUp \<Rightarrow> (max 1 s, max 1 s)
      | SizeDown \<Rightarrow> (min 1 s, min 1 s)
      | SizeForce \<Rightarrow> (hs, vs))"

text \<open>
  Modelled from the spec: \<^verbatim>\<open>pyvips.Image.thumbnail_buffer\<close> is the libvips thumbnail
  operation, which is not among the sources. Section 4.2, step 3b and the glossary: the image
  is scaled, preserving its aspect ratio, so that it fits the box, and with
  \<^verbatim>\<open>size=DOWN\<close> it is never enlarged. Every page of a multi-page image is scaled alike
  and the pages stay stacked.
\<close>

definition vips_thumbnail_image :: "vips_image \<Rightarrow> int \<Rightarrow> int \<Rightarrow> vips_size \<Rightarrow> vips_image" where
  "vips_thumbnail_image img mw mh sz =
     (let ph = vips_page_height img;
          n = vheight img div ph;
          (hs, vs) = vips_scale sz (vwidth img) ph mw mh;
          ow = max 1 (round (of_int (vwidth img) * hs));
          oph = max 1 (round (of_int ph * vs))
      in \<lparr>vwidth = ow, vheight = oph * n,
          vpage_height = map_option (\<lambda>p. oph) (vpage_height img)\<rparr>)"

definition vips_thumbnail_buffer ::
  "(bytes \<Rightarrow> string \<Rightarrow> error + vips_image) \<Rightarrow> bytes \<Rightarrow> int \<Rightarrow> int \<Rightarrow> string \<Rightarrow> vips_size
     \<Rightarrow> error + vips_image" where
  "vips_thumbnail_buffer load buf mw mh option_string sz =
     (case load buf option_string of
        Inl e \<Rightarrow> Inl e
      | Inr img \<Rightarrow> Inr (vips_thumbnail_image img mw mh sz))"

section \<open>Concrete inputs\<close>

definition jpg100 :: thumbnail_format where
  "jpg100 = \<lparr>extension = ''jpg'', max_width = 100, max_height = 100, animated = False, opts = ''Q=80''\<rparr>"

definition webp200 :: thumbnail_format where
  "webp200 = \<lparr>extension = ''webp'', max_width = 200, max_height = 200, animated = True, opts = ''Q=70''\<rparr>"

definition img_still :: vips_image where
  "img_still = \<lparr>vwidth = 25, vheight = 100, vpage_height = Some 100\<rparr>"

text \<open>Five frames of \<open>25 \<times> 100\<close>, stacked in one image.\<close>

definition img_anim :: vips_image where
  "img_anim = \<lparr>vwidth = 25, vheight = 500, vpage_height = Some 100\<rparr>"

definition env_ok :: env where
  "env_ok = \<lparr>catalogue = [jpg100, webp200],
     save_attachment_contents = (\<lambda>p. Inr ''GIF89a''),
     thumbnail_buffer = (\<lambda>buf mw mh os sz. if os = ''n=-1'' then Inr img_anim else Inr img_still),
     write_to_buffer = (\<lambda>img target. Inr ''abc''),
     guess_type = (\<lambda>name. (Some ''image/any'', None)),
     get_image_thumbnail_path = (\<lambda>a f. path_id a @ ''.'' @ extension f),
     upload_message_attachment = (\<lambda>path ct b. None)\<rparr>"

text \<open>The source cannot be decoded at all.\<close>

definition env_corrupt :: env where
  "env_corrupt = env_ok\<lparr>thumbnail_buffer := (\<lambda>buf mw mh os sz. Inl PyvipsError)\<rparr>"

text \<open>The resize into the larger box fails.\<close>

definition env_partial :: env where
  "env_partial = env_ok\<lparr>thumbnail_buffer :=
     (\<lambda>buf mw mh os sz. if mw = 200 then Inl PyvipsError else Inr img_still)\<rparr>"

definition env_upload_fails :: env where
  "env_upload_fails = env_ok\<lparr>upload_message_attachment := (\<lambda>path ct b. Some UploadFailure)\<rparr>"

text \<open>The MIME table does not know the extension.\<close>

definition env_no_mime :: env where
  "env_no_mime = env_ok\<lparr>guess_type := (\<lambda>name. (None, None))\<rparr>"

text \<open>The loader returns a source of \<open>25 \<times> 100\<close>; the modelled thumbnail operation resizes it.\<close>

definition env_vips :: env where
  "env_vips = env_ok\<lparr>thumbnail_buffer :=
     vips_thumbnail_buffer (\<lambda>buf os. Inr img_still)\<rparr>"

definition att0 :: image_attachment where
  "att0 = \<lparr>att_id = 7, path_id = ''2/ab/cat.gif'', original_width_px = 25,
           original_height_px = 100, frames = 1, thumbnail_metadata = []\<rparr>"

text \<open>An animated source with five frames.\<close>

definition att5 :: image_attachment where
  "att5 = att0\<lparr>frames := 5\<rparr>"

definition stored_jpg :: stored_thumbnail_format where
  "stored_jpg = \<lparr>st_extension = ''jpg'', st_content_type = ''image/any'', st_max_width = 100,
     st_max_height = 100, st_animated = False, st_width = 25, st_height = 100, st_byte_size = 3\<rparr>"

definition stored_webp :: stored_thumbnail_format where
  "stored_webp = \<lparr>st_extension = ''webp'', st_content_type = ''image/any'', st_max_width = 200,
     st_max_height = 200, st_animated = True, st_width = 25, st_height = 100, st_byte_size = 3\<rparr>"

definition world0 :: world where
  "world0 = \<lparr>rows = [7 \<mapsto> att0], io_log = []\<rparr>"

text \<open>The in-memory object differs from its row in a column the worker does not write.\<close>

definition att_stale :: image_attachment where
  "att_stale = att0\<lparr>original_width_px := 26\<rparr>"

definition log_done :: "io_event list" where
  "log_done = [EvFetch ''2/ab/cat.gif'',
     EvResize 100 100 '''' SizeDown, EvUpload ''2/ab/cat.gif.jpg'' ''image/any'' ''abc'',
     EvResize 200 200 '''' SizeDown, EvUpload ''2/ab/cat.gif.webp'' ''image/any'' ''abc'',
     EvSave 7 [''thumbnail_metadata'']]"

definition world_done :: world where
  "world_done = \<lparr>rows = [7 \<mapsto> att0\<lparr>thumbnail_metadata := [stored_jpg, stored_webp]\<rparr>],
                  io_log = log_done\<rparr>"

definition log_anim :: "io_event list" where
  "log_anim = [EvFetch ''2/ab/cat.gif'',
     EvResize 100 100 ''n=1'' SizeDown, EvUpload ''2/ab/cat.gif.jpg'' ''image/any'' ''abc'',
     EvResize 200 200 ''n=-1'' SizeDown, EvUpload ''2/ab/cat.gif.webp'' ''image/any'' ''abc'',
     EvSave 7 [''thumbnail_metadata'']]"

definition world_anim :: world where
  "world_anim = \<lparr>rows = [7 \<mapsto> att0\<lparr>thumbnail_metadata := [stored_jpg, stored_webp]\<rparr>],
                  io_log = log_anim\<rparr>"

section \<open>The concrete inputs, evaluated\<close>

lemmas concrete_defs =
  env_ok_def env_corrupt_def env_partial_def env_upload_fails_def env_no_mime_def env_vips_def
  jpg100_def webp200_def img_still_def img_anim_def stored_jpg_def stored_webp_def
  att0_def att5_def att_stale_def world0_def log_done_def world_done_def log_anim_def world_anim_def

lemma run_ok:
  "ensure_thumbnails env_ok att0 world0 =
     (Inr 2, att0\<lparr>thumbnail_metadata := [stored_jpg, stored_webp]\<rparr>, world_done)"
  by (simp add: ensure_thumbnails_def missing_thumbnails_def process_format_def load_opts_def
        save_and_return_def model_save_def copy_field_def log_event_def same_format_def
        get_page_height_def concrete_defs)

lemma run_ok_stale:
  "ensure_thumbnails env_ok att_stale world0 =
     (Inr 2, att_stale\<lparr>thumbnail_metadata := [stored_jpg, stored_webp]\<rparr>, world_done)"
  by (simp add: ensure_thumbnails_def missing_thumbnails_def process_format_def load_opts_def
        save_and_return_def model_save_def copy_field_def log_event_def same_format_def
        get_page_height_def concrete_defs)

lemma run_ok_anim:
  "ensure_thumbnails env_ok att5 world0 =
     (Inr 2, att5\<lparr>thumbnail_metadata := [stored_jpg, stored_webp]\<rparr>, world_anim)"
  by (simp add: ensure_thumbnails_def missing_thumbnails_def process_format_def load_opts_def
        save_and_return_def model_save_def copy_field_def log_event_def same_format_def
        get_page_height_def concrete_defs)

lemma content_type_miss_example:
  "fst (ensure_thumbnails env_no_mime att0 world0) = Inl AssertionError \<and>
   rows (snd (snd (ensure_thumbnails env_no_mime att0 world0))) = rows world0"
  by (simp add: ensure_thumbnails_def missing_thumbnails_def process_format_def load_opts_def
        log_event_def concrete_defs)

lemma fit_within_example:
  "vips_thumbnail_image \<lparr>vwidth = 50, vheight = 200, vpage_height = None\<rparr> 100 100 SizeDown =
     \<lparr>vwidth = 25, vheight = 100, vpage_height = None\<rparr>"
  by (simp add: vips_thumbnail_image_def vips_scale_def vips_page_height_def Let_def)

section \<open>One format\<close>

text \<open>
  What one pass through the loop body does: it never touches the database, it makes exactly
  one resize call, and an entry it returns copies the four identifying attributes of the
  format and the dimensions of the resized image.
\<close>

lemma process_format_world:
  "process_format E buf f a w = (r, w') \<Longrightarrow>
     rows w' = rows w \<and> (\<exists>evs. io_log w' = io_log w @ evs \<and> (\<forall>ev\<in>set evs. \<not> is_db_event ev))"
  by (auto simp: process_format_def log_event_def Let_def split: sum.splits option.splits if_splits)

lemma process_format_same_format:
  "process_format E buf f a w = (Inr s, w') \<Longrightarrow> same_format f s"
  by (auto simp: process_format_def same_format_def Let_def split: sum.splits option.splits if_splits)

lemma process_format_resizes:
  "process_format E buf f a w = (r, w') \<Longrightarrow>
     filter is_resize (io_log w') = filter is_resize (io_log w) @ [resize_event a f]"
  by (auto simp: process_format_def log_event_def resize_event_def Let_def
           split: sum.splits option.splits if_splits)

lemma resize_event_metadata [simp]:
  "resize_event (a\<lparr>thumbnail_metadata := m\<rparr>) f = resize_event a f"
  by (simp add: resize_event_def load_opts_def)

lemma process_format_resized:
  assumes "process_format E buf f a w = (Inr s, w')"
  shows "\<exists>resized. thumbnail_buffer E buf (max_width f) (max_height f) (load_opts a f) SizeDown = Inr resized \<and>
           st_width s = vwidth resized \<and>
           (if animated f then vpage_height resized = Some (st_height s)
            else st_height s = vheight resized)"
  using assms
  by (auto simp: process_format_def get_page_height_def Let_def
           split: sum.splits option.splits if_splits)

lemma recorded_from_metadata [simp]:
  "recorded_from E buf (a\<lparr>thumbnail_metadata := m\<rparr>) f s = recorded_from E buf a f s"
  by (simp add: recorded_from_def load_opts_def)

lemma process_format_recorded:
  "process_format E buf f a w = (Inr s, w') \<Longrightarrow> recorded_from E buf a f s"
  using process_format_resized[of E buf f a w s w']
  by (auto simp: recorded_from_def)

section \<open>The loop\<close>

text \<open>
  The loop only appends to the metadata: after it the list is the old list followed by one
  entry for each format of a prefix of the formats, and the counter has grown by the number
  of these entries. The prefix is the whole list exactly when no exception ended the loop.
\<close>

lemma thumbnail_loop_world:
  "thumbnail_loop E buf fs a n w = (r, a', n', w') \<Longrightarrow>
     rows w' = rows w \<and> (\<exists>evs. io_log w' = io_log w @ evs \<and> (\<forall>ev\<in>set evs. \<not> is_db_event ev))"
proof (induction fs arbitrary: a n w)
  case Nil
  then show ?case by simp
next
  case (Cons f fs)
  obtain r1 w1 where p: "process_format E buf f a w = (r1, w1)" by (cases "process_format E buf f a w")
  from process_format_world[OF p] obtain evs1 where
    w1: "rows w1 = rows w" "io_log w1 = io_log w @ evs1" "\<forall>ev\<in>set evs1. \<not> is_db_event ev" by blast
  show ?case
  proof (cases r1)
    case (Inl e)
    with Cons.prems p w1 show ?thesis by auto
  next
    case (Inr s)
    with Cons.prems p have
      "thumbnail_loop E buf fs (a\<lparr>thumbnail_metadata := thumbnail_metadata a @ [s]\<rparr>) (n + 1) w1 = (r, a', n', w')"
      by simp
    from Cons.IH[OF this] obtain evs2 where
      "rows w' = rows w1" "io_log w' = io_log w1 @ evs2" "\<forall>ev\<in>set evs2. \<not> is_db_event ev" by blast
    with w1 show ?thesis by auto
  qed
qed

lemma thumbnail_loop_metadata:
  "thumbnail_loop E buf fs a n w = (r, a', n', w') \<Longrightarrow>
     \<exists>new. a' = a\<lparr>thumbnail_metadata := thumbnail_metadata a @ new\<rparr> \<and>
           n' = n + int (length new) \<and>
           list_all2 same_format (take (length new) fs) new \<and>
           (if r = None then length new = length fs else length new < length fs)"
proof (induction fs arbitrary: a n w)
  case Nil
  then show ?case by auto
next
  case (Cons f fs)
  obtain r1 w1 where p: "process_format E buf f a w = (r1, w1)" by (cases "process_format E buf f a w")
  show ?case
  proof (cases r1)
    case (Inl e)
    with Cons.prems p have "a' = a" "n' = n" "r = Some e" by auto
    then show ?thesis by (intro exI[of _ "[]"]) auto
  next
    case (Inr s)
    let ?a1 = "a\<lparr>thumbnail_metadata := thumbnail_metadata a @ [s]\<rparr>"
    from Inr Cons.prems p have
      "thumbnail_loop E buf fs ?a1 (n + 1) w1 = (r, a', n', w')"
      by simp
    from Cons.IH[OF this] obtain new where new:
      "a' = ?a1\<lparr>thumbnail_metadata := thumbnail_metadata ?a1 @ new\<rparr>"
      "n' = n + 1 + int (length new)"
      "list_all2 same_format (take (length new) fs) new"
      "if r = None then length new = length fs else length new < length fs" by blast
    from p Inr have sf: "same_format f s" using process_format_same_format by blast
    show ?thesis
      using new sf by (intro exI[of _ "s # new"]) (auto split: if_splits)
  qed
qed

lemma thumbnail_loop_resizes:
  "thumbnail_loop E buf fs a n w = (r, a', n', w') \<Longrightarrow>
     filter is_resize (io_log w') =
       filter is_resize (io_log w) @
       map (resize_event a) (take (nat (n' - n) + (if r = None then 0 else 1)) fs)"
proof (induction fs arbitrary: a n w)
  case Nil
  then show ?case by auto
next
  case (Cons f fs)
  obtain r1 w1 where p: "process_format E buf f a w = (r1, w1)" by (cases "process_format E buf f a w")
  note rs = process_format_resizes[OF p]
  show ?case
  proof (cases r1)
    case (Inl e)
    with Cons.prems p rs show ?thesis by auto
  next
    case (Inr s)
    let ?a1 = "a\<lparr>thumbnail_metadata := thumbnail_metadata a @ [s]\<rparr>"
    from Inr Cons.prems p have run:
      "thumbnail_loop E buf fs ?a1 (n + 1) w1 = (r, a', n', w')" by simp
    from thumbnail_loop_metadata[OF run] have ge: "n + 1 \<le> n'" by auto
    then have "nat (n' - n) = Suc (nat (n' - (n + 1)))" by linarith
    with Cons.IH[OF run] rs show ?thesis by simp
  qed
qed

lemma thumbnail_loop_append:
  "thumbnail_loop E buf pre a n w = (None, a1, n1, w1) \<Longrightarrow>
   thumbnail_loop E buf (pre @ fs) a n w = thumbnail_loop E buf fs a1 n1 w1"
proof (induction pre arbitrary: a n w)
  case Nil
  then show ?case by simp
next
  case (Cons f pre)
  obtain r1 w' where p: "process_format E buf f a w = (r1, w')" by (cases "process_format E buf f a w")
  show ?case
  proof (cases r1)
    case (Inl e)
    with Cons.prems p show ?thesis by simp
  next
    case (Inr s)
    with Cons.prems p Cons.IH show ?thesis by simp
  qed
qed

lemma thumbnail_loop_recorded:
  "thumbnail_loop E buf fs a n w = (r, a', n', w') \<Longrightarrow>
     list_all2 (recorded_from E buf a) (take (nat (n' - n)) fs)
       (drop (length (thumbnail_metadata a)) (thumbnail_metadata a'))"
proof (induction fs arbitrary: a n w)
  case Nil
  then show ?case by auto
next
  case (Cons f fs)
  obtain r1 w1 where p: "process_format E buf f a w = (r1, w1)" by (cases "process_format E buf f a w")
  show ?case
  proof (cases r1)
    case (Inl e)
    with Cons.prems p show ?thesis by auto
  next
    case (Inr s)
    let ?a1 = "a\<lparr>thumbnail_metadata := thumbnail_metadata a @ [s]\<rparr>"
    from Inr Cons.prems p have run:
      "thumbnail_loop E buf fs ?a1 (n + 1) w1 = (r, a', n', w')" by simp
    from thumbnail_loop_metadata[OF run] obtain new where new:
      "a' = ?a1\<lparr>thumbnail_metadata := thumbnail_metadata ?a1 @ new\<rparr>"
      "n' = n + 1 + int (length new)" by blast
    from new(2) have k: "nat (n' - n) = Suc (nat (n' - (n + 1)))" by linarith
    from new(1) have md: "thumbnail_metadata a' = thumbnail_metadata a @ s # new" by simp
    from Cons.IH[OF run] md
    have tl: "list_all2 (recorded_from E buf a) (take (nat (n' - (n + 1))) fs) new" by simp
    from p Inr have "recorded_from E buf a f s" using process_format_recorded by blast
    with tl k md show ?thesis by simp
  qed
qed

section \<open>Saving and deleting\<close>

lemma model_save_metadata:
  "rows w (att_id a) = Some row \<Longrightarrow>
   model_save [''thumbnail_metadata''] a w =
     (None, w\<lparr>io_log := io_log w @ [EvSave (att_id a) [''thumbnail_metadata'']],
              rows := (rows w)(att_id a \<mapsto> row\<lparr>thumbnail_metadata := thumbnail_metadata a\<rparr>)\<rparr>)"
  by (simp add: model_save_def log_event_def copy_field_def)

lemma model_save_missing:
  "rows w (att_id a) = None \<Longrightarrow>
   model_save names a w = (Some DatabaseError, w\<lparr>io_log := io_log w @ [EvSave (att_id a) names]\<rparr>)"
  by (simp add: model_save_def log_event_def)

lemma save_and_return_Inr:
  "save_and_return a n w = (Inr m, a', w') \<Longrightarrow>
     m = n \<and> a' = a \<and>
     (\<exists>row. rows w (att_id a) = Some row \<and>
        w' = w\<lparr>io_log := io_log w @ [EvSave (att_id a) [''thumbnail_metadata'']],
               rows := (rows w)(att_id a \<mapsto> row\<lparr>thumbnail_metadata := thumbnail_metadata a\<rparr>)\<rparr>)"
  by (cases "rows w (att_id a)")
     (auto simp: save_and_return_def model_save_missing model_save_metadata)



section \<open>A whole run\<close>

text \<open>
  A run that returns a count past the resolver took one of two ways out: the delete, with
  nothing written and no metadata, or the save.
\<close>

lemma ensure_thumbnails_cases:
  assumes run: "ensure_thumbnails E a w = (Inr n, a', w')"
    and ne: "missing_thumbnails (catalogue E) a \<noteq> []"
  obtains (deleted) buf w1 where
      "save_attachment_contents E (path_id a) = Inr buf"
      "thumbnail_loop E buf (missing_thumbnails (catalogue E) a) a 0
         (log_event (EvFetch (path_id a)) w) = (Some PyvipsError, a', 0, w1)"
      "thumbnail_metadata a' = []" "n = 0" "w' = model_delete a' w1"
  | (saved) buf r w1 where
      "save_attachment_contents E (path_id a) = Inr buf"
      "thumbnail_loop E buf (missing_thumbnails (catalogue E) a) a 0
         (log_event (EvFetch (path_id a)) w) = (r, a', n, w1)"
      "r = None \<or> r = Some PyvipsError"
      "save_and_return a' n w1 = (Inr n, a', w')"
proof -
  let ?needed = "missing_thumbnails (catalogue E) a"
  let ?w0 = "log_event (EvFetch (path_id a)) w"
  from run ne obtain buf where buf: "save_attachment_contents E (path_id a) = Inr buf"
    by (cases "save_attachment_contents E (path_id a)") (auto simp: ensure_thumbnails_def Let_def)
  obtain r a1 n1 w1 where loop: "thumbnail_loop E buf ?needed a 0 ?w0 = (r, a1, n1, w1)"
    by (cases "thumbnail_loop E buf ?needed a 0 ?w0") auto
  show thesis
  proof (cases r)
    case None
    with run ne buf loop have sv: "save_and_return a1 n1 w1 = (Inr n, a', w')"
      by (simp add: ensure_thumbnails_def Let_def)
    from save_and_return_Inr[OF sv] have "n = n1" "a' = a1" by auto
    with sv loop None buf show ?thesis by (intro saved[of buf r w1]) auto
  next
    case (Some e)
    with run ne buf loop have e: "e = PyvipsError"
      by (auto simp: ensure_thumbnails_def Let_def split: if_splits)
    show ?thesis
    proof (cases "n1 = 0 \<and> length (thumbnail_metadata a1) = 0")
      case True
      with run ne buf loop Some e have "n = 0" "a' = a1" "w' = model_delete a1 w1"
        by (auto simp: ensure_thumbnails_def Let_def)
      with True loop Some e buf show ?thesis by (intro deleted[of buf w1]) auto
    next
      case False
      with run ne buf loop Some e have sv: "save_and_return a1 n1 w1 = (Inr n, a', w')"
        by (auto simp: ensure_thumbnails_def Let_def)
      from save_and_return_Inr[OF sv] have "n = n1" "a' = a1" by auto
      with sv loop Some e buf show ?thesis by (intro saved[of buf r w1]) auto
    qed
  qed
qed

lemma ensure_thumbnails_result:
  assumes run: "ensure_thumbnails E a w = (Inr n, a', w')"
  shows "\<exists>new. a' = a\<lparr>thumbnail_metadata := thumbnail_metadata a @ new\<rparr> \<and>
               n = int (length new) \<and>
               list_all2 same_format (take (length new) (missing_thumbnails (catalogue E) a)) new"
proof (cases "missing_thumbnails (catalogue E) a = []")
  case True
  with run have "n = 0" "a' = a" by (auto simp: ensure_thumbnails_def)
  then show ?thesis by (intro exI[of _ "[]"]) simp
next
  case False
  from run False show ?thesis
  proof (cases rule: ensure_thumbnails_cases)
    case (deleted buf w1)
    from thumbnail_loop_metadata[OF deleted(2)] obtain new where
      "a' = a\<lparr>thumbnail_metadata := thumbnail_metadata a @ new\<rparr>" "0 = 0 + int (length new)"
      "list_all2 same_format (take (length new) (missing_thumbnails (catalogue E) a)) new"
      by blast
    with deleted(4) show ?thesis by (intro exI[of _ new]) simp
  next
    case (saved buf r w1)
    from thumbnail_loop_metadata[OF saved(2)] obtain new where
      "a' = a\<lparr>thumbnail_metadata := thumbnail_metadata a @ new\<rparr>" "n = 0 + int (length new)"
      "list_all2 same_format (take (length new) (missing_thumbnails (catalogue E) a)) new"
      by blast
    then show ?thesis by (intro exI[of _ new]) simp
  qed
qed

lemma ensure_thumbnails_raises_rows:
  assumes "ensure_thumbnails E a w = (Inl e, a', w')"
  shows "rows w' = rows w"
proof -
  let ?needed = "missing_thumbnails (catalogue E) a"
  let ?w0 = "log_event (EvFetch (path_id a)) w"
  have sv: "rows v' = rows v" if "save_and_return x m v = (Inl e, x', v')" for x m v x' v'
    using that by (cases "rows v (att_id x)")
      (auto simp: save_and_return_def model_save_missing model_save_metadata log_event_def)
  from assms have ne: "?needed \<noteq> []" by (auto simp: ensure_thumbnails_def)
  show ?thesis
  proof (cases "save_attachment_contents E (path_id a)")
    case (Inl e')
    with assms ne show ?thesis by (auto simp: ensure_thumbnails_def Let_def log_event_def)
  next
    case (Inr buf)
    obtain r a1 n1 w1 where loop: "thumbnail_loop E buf ?needed a 0 ?w0 = (r, a1, n1, w1)"
      by (cases "thumbnail_loop E buf ?needed a 0 ?w0") auto
    from thumbnail_loop_world[OF loop] have w1: "rows w1 = rows w" by (simp add: log_event_def)
    from assms ne Inr loop have "w' = w1 \<or> save_and_return a1 n1 w1 = (Inl e, a', w')"
      by (auto simp: ensure_thumbnails_def Let_def split: option.splits if_splits)
    with w1 sv show ?thesis by auto
  qed
qed


section \<open>Nothing to do\<close>

text \<open>
  C8: when the resolver finds no missing format, \<^verbatim>\<open>ensure_thumbnails\<close> returns 0 and
  leaves the in-memory attachment and the world as they were: the database rows are the
  same and the log of external calls has no new entry, so there was no fetch, no resize, no
  upload and no save.
\<close>

theorem ensure_thumbnails_nothing_missing:
  assumes "missing_thumbnails (catalogue E) a = []"
  shows "ensure_thumbnails E a w = (Inr 0, a, w)"
  using assms by (simp add: ensure_thumbnails_def)

theorem ensure_thumbnails_nothing_missing_witness:
  "missing_thumbnails (catalogue env_ok) (att0\<lparr>thumbnail_metadata := [stored_jpg, stored_webp]\<rparr>) = [] \<and>
   ensure_thumbnails env_ok (att0\<lparr>thumbnail_metadata := [stored_jpg, stored_webp]\<rparr>) world0
     = (Inr 0, att0\<lparr>thumbnail_metadata := [stored_jpg, stored_webp]\<rparr>, world0)"
proof -
  have h: "missing_thumbnails (catalogue env_ok) (att0\<lparr>thumbnail_metadata := [stored_jpg, stored_webp]\<rparr>) = []"
    by (simp add: missing_thumbnails_def same_format_def concrete_defs)
  from ensure_thumbnails_nothing_missing[OF h] h show ?thesis by simp
qed

section \<open>Decode failures\<close>

text \<open>
  C1: the loop ends with a \<^verbatim>\<open>pyvips.Error\<close> while \<^verbatim>\<open>written_images\<close> is still 0, and
  the metadata of the attachment was empty before the run. Then \<^verbatim>\<open>ensure_thumbnails\<close>
  returns 0, the row of the attachment is gone from the database, every other row is as it
  was, and the only database event of the run is the delete: the metadata is not saved.
\<close>

theorem decode_failure_on_fresh_attachment_deletes:
  assumes fresh: "thumbnail_metadata a = []"
    and fetched: "save_attachment_contents E (path_id a) = Inr buf"
    and failed: "thumbnail_loop E buf (missing_thumbnails (catalogue E) a) a 0
                   (log_event (EvFetch (path_id a)) w) = (Some PyvipsError, a1, 0, w1)"
  shows "ensure_thumbnails E a w = (Inr 0, a, model_delete a w1) \<and>
         rows (model_delete a w1) = (rows w)(att_id a := None) \<and>
         (\<exists>evs. io_log (model_delete a w1) = io_log w @ evs @ [EvDelete (att_id a)] \<and>
                (\<forall>ev\<in>set evs. \<not> is_db_event ev))"
proof -
  let ?needed = "missing_thumbnails (catalogue E) a"
  from failed have ne: "?needed \<noteq> []" by auto
  from thumbnail_loop_metadata[OF failed] have a1: "a1 = a" by auto
  from thumbnail_loop_world[OF failed] obtain evs where
    w1: "rows w1 = rows w" "io_log w1 = io_log w @ [EvFetch (path_id a)] @ evs"
        "\<forall>ev\<in>set evs. \<not> is_db_event ev"
    by (auto simp: log_event_def)
  have run: "ensure_thumbnails E a w = (Inr 0, a, model_delete a w1)"
    using ne fetched failed fresh a1 by (simp add: ensure_thumbnails_def Let_def)
  have rws: "rows (model_delete a w1) = (rows w)(att_id a := None)"
    using w1 by (simp add: model_delete_def log_event_def)
  have lg: "io_log (model_delete a w1) = io_log w @ (EvFetch (path_id a) # evs) @ [EvDelete (att_id a)]"
    using w1 by (simp add: model_delete_def log_event_def)
  have "\<forall>ev\<in>set (EvFetch (path_id a) # evs). \<not> is_db_event ev" using w1 by simp
  with lg have "\<exists>evs. io_log (model_delete a w1) = io_log w @ evs @ [EvDelete (att_id a)] \<and>
                (\<forall>ev\<in>set evs. \<not> is_db_event ev)" by blast
  with run rws show ?thesis by blast
qed

theorem decode_failure_on_fresh_attachment_deletes_witness:
  "thumbnail_metadata att0 = [] \<and>
   fst (ensure_thumbnails env_corrupt att0 world0) = Inr 0 \<and>
   rows (snd (snd (ensure_thumbnails env_corrupt att0 world0))) (att_id att0) = None"
proof -
  let ?w1 = "log_event (EvResize 100 100 '''' SizeDown) (log_event (EvFetch (path_id att0)) world0)"
  have fresh: "thumbnail_metadata att0 = []" by (simp add: att0_def)
  have fetched: "save_attachment_contents env_corrupt (path_id att0) = Inr ''GIF89a''"
    by (simp add: env_corrupt_def env_ok_def)
  have needed: "missing_thumbnails (catalogue env_corrupt) att0 = [jpg100, webp200]"
    by (simp add: missing_thumbnails_def env_corrupt_def env_ok_def att0_def)
  have failed: "thumbnail_loop env_corrupt ''GIF89a'' (missing_thumbnails (catalogue env_corrupt) att0) att0 0
                   (log_event (EvFetch (path_id att0)) world0) = (Some PyvipsError, att0, 0, ?w1)"
    unfolding needed
    by (simp add: process_format_def load_opts_def env_corrupt_def env_ok_def att0_def jpg100_def)
  from decode_failure_on_fresh_attachment_deletes[OF fresh fetched failed] fresh
  show ?thesis by simp
qed

text \<open>
  C2: the loop ends with a \<^verbatim>\<open>pyvips.Error\<close> after \<open>n\<close> thumbnails were written, and
  the attachment had metadata before the run or \<open>n\<close> is positive. Then the function returns
  \<open>n\<close>; the metadata is the metadata from before the run followed by \<open>n\<close> new entries, one
  for each of the first \<open>n\<close> missing formats in their order (so it is unchanged when \<open>n\<close> is
  0); the row is kept and only its metadata column is set to that list; and the formats
  after the failing one are not attempted: the resize calls of the run are those for the
  first \<open>n + 1\<close> missing formats.
\<close>

theorem decode_failure_keeps_partial_results:
  assumes fetched: "save_attachment_contents E (path_id a) = Inr buf"
    and failed: "thumbnail_loop E buf (missing_thumbnails (catalogue E) a) a 0
                   (log_event (EvFetch (path_id a)) w) = (Some PyvipsError, a1, n, w1)"
    and kept: "thumbnail_metadata a \<noteq> [] \<or> 0 < n"
    and row: "rows w (att_id a) = Some row"
  shows "\<exists>w' new.
           ensure_thumbnails E a w = (Inr n, a1, w') \<and>
           thumbnail_metadata a1 = thumbnail_metadata a @ new \<and>
           int (length new) = n \<and>
           length new < length (missing_thumbnails (catalogue E) a) \<and>
           list_all2 same_format (take (length new) (missing_thumbnails (catalogue E) a)) new \<and>
           rows w' = (rows w)(att_id a \<mapsto> row\<lparr>thumbnail_metadata := thumbnail_metadata a @ new\<rparr>) \<and>
           filter is_resize (io_log w') = filter is_resize (io_log w) @
             map (resize_event a) (take (length new + 1) (missing_thumbnails (catalogue E) a))"
proof -
  let ?needed = "missing_thumbnails (catalogue E) a"
  from failed have ne: "?needed \<noteq> []" by auto
  from thumbnail_loop_metadata[OF failed] obtain new where new:
    "a1 = a\<lparr>thumbnail_metadata := thumbnail_metadata a @ new\<rparr>"
    "n = int (length new)"
    "list_all2 same_format (take (length new) ?needed) new"
    "length new < length ?needed"
    by auto
  from thumbnail_loop_world[OF failed] have rw1: "rows w1 = rows w"
    by (simp add: log_event_def)
  from thumbnail_loop_resizes[OF failed] new
  have rs: "filter is_resize (io_log w1) = filter is_resize (io_log w) @
              map (resize_event a) (take (length new + 1) ?needed)"
    by (simp add: log_event_def)
  have id1: "att_id a1 = att_id a" using new by simp
  let ?w' = "w1\<lparr>io_log := io_log w1 @ [EvSave (att_id a1) [''thumbnail_metadata'']],
                rows := (rows w1)(att_id a1 \<mapsto> row\<lparr>thumbnail_metadata := thumbnail_metadata a1\<rparr>)\<rparr>"
  have row1: "rows w1 (att_id a1) = Some row" using row rw1 id1 by simp
  have sv: "save_and_return a1 n w1 = (Inr n, a1, ?w')"
    using model_save_metadata[OF row1] by (simp add: save_and_return_def)
  have nodel: "\<not> (n = 0 \<and> length (thumbnail_metadata a1) = 0)"
    using kept new by auto
  have run: "ensure_thumbnails E a w = (Inr n, a1, ?w')"
    using ne fetched failed nodel sv by (auto simp: ensure_thumbnails_def Let_def)
  have "rows ?w' = (rows w)(att_id a \<mapsto> row\<lparr>thumbnail_metadata := thumbnail_metadata a @ new\<rparr>)"
    using rw1 id1 new by simp
  moreover have "filter is_resize (io_log ?w') = filter is_resize (io_log w) @
             map (resize_event a) (take (length new + 1) ?needed)"
    using rs by simp
  moreover have "thumbnail_metadata a1 = thumbnail_metadata a @ new" using new by simp
  ultimately show ?thesis using run new by blast
qed

theorem decode_failure_keeps_partial_results_witness:
  "fst (ensure_thumbnails env_partial att0 world0) = Inr 1 \<and>
   map_option thumbnail_metadata (rows (snd (snd (ensure_thumbnails env_partial att0 world0))) 7)
     = Some [stored_jpg]"
proof -
  let ?w0 = "log_event (EvFetch (path_id att0)) world0"
  let ?w1 = "log_event (EvResize 200 200 '''' SizeDown)
              (log_event (EvUpload ''2/ab/cat.gif.jpg'' ''image/any'' ''abc'')
                (log_event (EvResize 100 100 '''' SizeDown) ?w0))"
  have fetched: "save_attachment_contents env_partial (path_id att0) = Inr ''GIF89a''"
    by (simp add: env_partial_def env_ok_def)
  have needed: "missing_thumbnails (catalogue env_partial) att0 = [jpg100, webp200]"
    by (simp add: missing_thumbnails_def env_partial_def env_ok_def att0_def)
  have failed: "thumbnail_loop env_partial ''GIF89a'' (missing_thumbnails (catalogue env_partial) att0) att0 0
                   ?w0 = (Some PyvipsError, att0\<lparr>thumbnail_metadata := [stored_jpg]\<rparr>, 1, ?w1)"
    unfolding needed
    by (simp add: process_format_def load_opts_def concrete_defs)
  have kept: "thumbnail_metadata att0 \<noteq> [] \<or> 0 < (1::int)" by simp
  have row: "rows world0 (att_id att0) = Some att0" by (simp add: world0_def att0_def)
  from decode_failure_keeps_partial_results[OF fetched failed kept row]
  show ?thesis by (auto simp: att0_def)
qed

section \<open>Exceptions that are not caught\<close>

text \<open>
  C4: the formats before \<open>f\<close> were written, and for \<open>f\<close> the resize and the encoding
  succeed; then either the content type lookup gives \<^verbatim>\<open>None\<close> (the assertion fails) or
  the upload raises an exception \<open>e\<close> that is not a \<^verbatim>\<open>pyvips.Error\<close>. In both cases the
  exception leaves \<^verbatim>\<open>ensure_thumbnails\<close>, the database rows are what they were before
  the run, and the run made no database call at all.
\<close>

theorem upload_failure_propagates:
  assumes needed: "missing_thumbnails (catalogue E) a = pre @ f # post"
    and fetched: "save_attachment_contents E (path_id a) = Inr buf"
    and before: "thumbnail_loop E buf pre a 0 (log_event (EvFetch (path_id a)) w) = (None, a1, n1, w1)"
    and resized: "thumbnail_buffer E buf (max_width f) (max_height f) (load_opts a1 f) SizeDown = Inr img"
    and encoded: "write_to_buffer E img (''.'' @ extension f @ ''['' @ opts f @ '']'') = Inr tb"
    and fails: "(fst (guess_type E (''image.'' @ extension f)) = None \<and> e = AssertionError) \<or>
                (\<exists>ct. fst (guess_type E (''image.'' @ extension f)) = Some ct \<and>
                      upload_message_attachment E (get_image_thumbnail_path E a1 f) ct tb = Some e \<and>
                      e \<noteq> PyvipsError)"
  shows "\<exists>w'. ensure_thumbnails E a w = (Inl e, a1, w') \<and> rows w' = rows w \<and>
              filter is_db_event (io_log w') = filter is_db_event (io_log w)"
proof -
  let ?w0 = "log_event (EvFetch (path_id a)) w"
  from fails resized encoded obtain w2 where
    step: "process_format E buf f a1 w1 = (Inl e, w2)" and e: "e \<noteq> PyvipsError"
    by (auto simp: process_format_def Let_def)
  from thumbnail_loop_append[OF before, of "f # post"] step
  have loop: "thumbnail_loop E buf (pre @ f # post) a 0 ?w0 = (Some e, a1, n1, w2)" by simp
  from thumbnail_loop_world[OF loop] obtain evs where w2:
    "rows w2 = rows w" "io_log w2 = io_log w @ EvFetch (path_id a) # evs"
    "\<forall>ev\<in>set evs. \<not> is_db_event ev"
    by (auto simp: log_event_def)
  from w2(3) have "filter is_db_event evs = []" by (simp add: filter_empty_conv)
  with w2 have lg: "filter is_db_event (io_log w2) = filter is_db_event (io_log w)" by simp
  have "ensure_thumbnails E a w = (Inl e, a1, w2)"
    using needed fetched loop e by (simp add: ensure_thumbnails_def Let_def)
  with w2(1) lg show ?thesis by blast
qed

theorem upload_failure_propagates_witness:
  "fst (ensure_thumbnails env_upload_fails att0 world0) = Inl UploadFailure \<and>
   rows (snd (snd (ensure_thumbnails env_upload_fails att0 world0))) = rows world0"
proof -
  let ?w0 = "log_event (EvFetch (path_id att0)) world0"
  have needed: "missing_thumbnails (catalogue env_upload_fails) att0 = [] @ jpg100 # [webp200]"
    by (simp add: missing_thumbnails_def concrete_defs)
  have fetched: "save_attachment_contents env_upload_fails (path_id att0) = Inr ''GIF89a''"
    by (simp add: concrete_defs)
  have before: "thumbnail_loop env_upload_fails ''GIF89a'' [] att0 0 ?w0 = (None, att0, 0, ?w0)"
    by simp
  have resized: "thumbnail_buffer env_upload_fails ''GIF89a'' (max_width jpg100) (max_height jpg100)
                   (load_opts att0 jpg100) SizeDown = Inr img_still"
    by (simp add: load_opts_def concrete_defs)
  have encoded: "write_to_buffer env_upload_fails img_still
                   (''.'' @ extension jpg100 @ ''['' @ opts jpg100 @ '']'') = Inr ''abc''"
    by (simp add: concrete_defs)
  have fails: "(fst (guess_type env_upload_fails (''image.'' @ extension jpg100)) = None \<and>
                 UploadFailure = AssertionError) \<or>
               (\<exists>ct. fst (guess_type env_upload_fails (''image.'' @ extension jpg100)) = Some ct \<and>
                  upload_message_attachment env_upload_fails
                    (get_image_thumbnail_path env_upload_fails att0 jpg100) ct ''abc'' = Some UploadFailure \<and>
                  UploadFailure \<noteq> PyvipsError)"
    by (simp add: concrete_defs)
  from upload_failure_propagates[OF needed fetched before resized encoded fails]
  show ?thesis by auto
qed

section \<open>What a run records\<close>

text \<open>
  C10: whenever \<^verbatim>\<open>ensure_thumbnails\<close> returns a count \<open>n\<close> (no exception left the
  function), \<open>n\<close> is not negative, the metadata list is longer by exactly \<open>n\<close>, its old
  entries are an unchanged prefix, and the entries after them belong, one by one and in
  order, to the first \<open>n\<close> missing formats. This holds whether the attachment was deleted or
  not.
\<close>

theorem metadata_grows_by_returned_count:
  assumes run: "ensure_thumbnails E a w = (Inr n, a', w')"
  shows "0 \<le> n \<and>
         length (thumbnail_metadata a') = length (thumbnail_metadata a) + nat n \<and>
         take (length (thumbnail_metadata a)) (thumbnail_metadata a') = thumbnail_metadata a \<and>
         list_all2 same_format (take (nat n) (missing_thumbnails (catalogue E) a))
           (drop (length (thumbnail_metadata a)) (thumbnail_metadata a'))"
proof -
  from ensure_thumbnails_result[OF run] obtain new where new:
    "a' = a\<lparr>thumbnail_metadata := thumbnail_metadata a @ new\<rparr>"
    "n = int (length new)"
    "list_all2 same_format (take (length new) (missing_thumbnails (catalogue E) a)) new"
    by blast
  then show ?thesis by simp
qed

theorem metadata_grows_by_returned_count_witness:
  "ensure_thumbnails env_ok att0 world0 =
     (Inr 2, att0\<lparr>thumbnail_metadata := [stored_jpg, stored_webp]\<rparr>, world_done) \<and>
   length (thumbnail_metadata (att0\<lparr>thumbnail_metadata := [stored_jpg, stored_webp]\<rparr>)) =
     length (thumbnail_metadata att0) + 2"
  using metadata_grows_by_returned_count[OF run_ok] run_ok by simp

text \<open>
  C9: a run returns a count \<open>n\<close> and the row of the attachment is still there afterwards.
  When no format was missing, the world is untouched. Otherwise the row after the run is the
  row from before with only its \<^verbatim>\<open>thumbnail_metadata\<close> column replaced by the list of
  the in-memory object, whatever the other attributes of the in-memory object are; all
  other rows are as they were; and the one database call of the run is the save with
  \<^verbatim>\<open>update_fields=["thumbnail_metadata"]\<close>. In both cases \<open>n\<close> is the number of entries
  that the run added to the list.
\<close>

theorem persist_touches_only_metadata:
  assumes run: "ensure_thumbnails E a w = (Inr n, a', w')"
    and row: "rows w (att_id a) = Some row"
    and kept: "rows w' (att_id a) \<noteq> None"
  shows "(if missing_thumbnails (catalogue E) a = [] then w' = w
          else rows w' = (rows w)(att_id a \<mapsto> row\<lparr>thumbnail_metadata := thumbnail_metadata a'\<rparr>) \<and>
               filter is_db_event (io_log w') =
                 filter is_db_event (io_log w) @ [EvSave (att_id a) [''thumbnail_metadata'']]) \<and>
         int (length (thumbnail_metadata a')) = int (length (thumbnail_metadata a)) + n"
proof (cases "missing_thumbnails (catalogue E) a = []")
  case True
  with run show ?thesis by (auto simp: ensure_thumbnails_def)
next
  case ne: False
  from ensure_thumbnails_result[OF run] have id: "att_id a' = att_id a"
    and len: "int (length (thumbnail_metadata a')) = int (length (thumbnail_metadata a)) + n"
    by auto
  from run ne show ?thesis
  proof (cases rule: ensure_thumbnails_cases)
    case (deleted buf w1)
    then have "rows w' (att_id a) = None" using id by (simp add: model_delete_def log_event_def)
    with kept show ?thesis by simp
  next
    case (saved buf r w1)
    from thumbnail_loop_world[OF saved(2)] obtain evs where w1:
      "rows w1 = rows w" "io_log w1 = io_log w @ EvFetch (path_id a) # evs"
      "\<forall>ev\<in>set evs. \<not> is_db_event ev"
      by (auto simp: log_event_def)
    from w1(3) have nodb: "filter is_db_event evs = []" by (simp add: filter_empty_conv)
    from save_and_return_Inr[OF saved(4)] obtain row' where row':
      "rows w1 (att_id a') = Some row'"
      "w' = w1\<lparr>io_log := io_log w1 @ [EvSave (att_id a') [''thumbnail_metadata'']],
               rows := (rows w1)(att_id a' \<mapsto> row'\<lparr>thumbnail_metadata := thumbnail_metadata a'\<rparr>)\<rparr>"
      by blast
    from row'(1) row w1(1) id have "row' = row" by simp
    with row' w1 id nodb len ne show ?thesis by simp
  qed
qed

theorem persist_touches_only_metadata_witness:
  "ensure_thumbnails env_ok att_stale world0 =
     (Inr 2, att_stale\<lparr>thumbnail_metadata := [stored_jpg, stored_webp]\<rparr>, world_done) \<and>
   original_width_px att_stale \<noteq> original_width_px att0 \<and>
   rows world_done = (rows world0)(7 \<mapsto> att0\<lparr>thumbnail_metadata := [stored_jpg, stored_webp]\<rparr>)"
proof -
  have ne: "missing_thumbnails (catalogue env_ok) att_stale \<noteq> []"
    by (simp add: missing_thumbnails_def concrete_defs)
  have row: "rows world0 (att_id att_stale) = Some att0" by (simp add: concrete_defs)
  have kept: "rows world_done (att_id att_stale) \<noteq> None" by (simp add: concrete_defs)
  from persist_touches_only_metadata[OF run_ok_stale row kept] ne run_ok_stale
  show ?thesis by (simp add: att_stale_def att0_def)
qed

text \<open>
  C7, as amended: the entries that a run adds belong, in order, to the first missing
  formats, and each carries the width of the image that the resize for its format returned
  and, as height, the \<^verbatim>\<open>page-height\<close> field of that image when the format is animated
  and the height of that image otherwise.
\<close>

theorem recorded_width_and_height:
  assumes run: "ensure_thumbnails E a w = (Inr n, a', w')"
    and fetched: "save_attachment_contents E (path_id a) = Inr buf"
  shows "list_all2 (recorded_from E buf a) (take (nat n) (missing_thumbnails (catalogue E) a))
           (drop (length (thumbnail_metadata a)) (thumbnail_metadata a'))"
proof (cases "missing_thumbnails (catalogue E) a = []")
  case True
  with run have "a' = a" by (auto simp: ensure_thumbnails_def)
  with True show ?thesis by simp
next
  case False
  from run False show ?thesis
  proof (cases rule: ensure_thumbnails_cases)
    case (deleted buf' w1)
    with fetched have "buf' = buf" by simp
    with thumbnail_loop_recorded[OF deleted(2)] deleted(4) show ?thesis by simp
  next
    case (saved buf' r w1)
    with fetched have "buf' = buf" by simp
    with thumbnail_loop_recorded[OF saved(2)] show ?thesis by simp
  qed
qed

theorem recorded_width_and_height_witness:
  "ensure_thumbnails env_ok att5 world0 =
     (Inr 2, att5\<lparr>thumbnail_metadata := [stored_jpg, stored_webp]\<rparr>, world_anim) \<and>
   save_attachment_contents env_ok (path_id att5) = Inr ''GIF89a'' \<and>
   recorded_from env_ok ''GIF89a'' att5 jpg100 stored_jpg \<and>
   recorded_from env_ok ''GIF89a'' att5 webp200 stored_webp"
proof -
  have fetched: "save_attachment_contents env_ok (path_id att5) = Inr ''GIF89a''"
    by (simp add: concrete_defs)
  have needed: "missing_thumbnails (catalogue env_ok) att5 = [jpg100, webp200]"
    by (simp add: missing_thumbnails_def concrete_defs)
  from recorded_width_and_height[OF run_ok_anim fetched] run_ok_anim fetched needed
  show ?thesis by (simp add: att5_def att0_def)
qed

text \<open>
  C7, as stated, fails: for the animated format the five frames of \<open>25 \<times> 100\<close> come back
  from the resize as one image of \<open>25 \<times> 500\<close> whose \<^verbatim>\<open>page-height\<close> is 100, and the entry
  records 100, the height of one frame, not the height 500 of the stacked canvas.
\<close>

theorem recorded_height_is_not_canvas_height:
  "ensure_thumbnails env_ok att5 world0 =
     (Inr 2, att5\<lparr>thumbnail_metadata := [stored_jpg, stored_webp]\<rparr>, world_anim) \<and>
   animated webp200 \<and>
   thumbnail_buffer env_ok ''GIF89a'' (max_width webp200) (max_height webp200)
     (load_opts att5 webp200) SizeDown = Inr img_anim \<and>
   vheight img_anim = 500 \<and> vpage_height img_anim = Some 100 \<and>
   st_height stored_webp = 100 \<and>
   st_height stored_webp \<noteq> vheight img_anim"
  using run_ok_anim by (simp add: load_opts_def concrete_defs)

section \<open>The frame-load mode\<close>



section \<open>Running twice\<close>

lemma list_all2_same_format_covers:
  assumes "list_all2 same_format fs new" and "f \<in> set fs"
  shows "list_ex (same_format f) new"
proof -
  from assms(2) obtain i where i: "i < length fs" "fs ! i = f" by (auto simp: in_set_conv_nth)
  with assms(1) have "same_format f (new ! i)" "i < length new"
    by (auto simp: list_all2_conv_all_nth)
  then show ?thesis by (auto simp: list_ex_iff)
qed

lemma missing_thumbnails_after_all:
  assumes "list_all2 same_format (missing_thumbnails cat a) new"
    and "thumbnail_metadata b = thumbnail_metadata a @ new"
  shows "missing_thumbnails cat b = []"
proof -
  have "list_ex (same_format f) (thumbnail_metadata b)" if f: "f \<in> set cat" for f
  proof (cases "list_ex (same_format f) (thumbnail_metadata a)")
    case True
    then show ?thesis using assms(2) by (auto simp: list_ex_iff)
  next
    case False
    with f have "f \<in> set (missing_thumbnails cat a)" by (simp add: missing_thumbnails_def)
    from list_all2_same_format_covers[OF assms(1) this] show ?thesis
      using assms(2) by (auto simp: list_ex_iff)
  qed
  then show ?thesis by (simp add: missing_thumbnails_def filter_empty_conv)
qed

text \<open>
  C3: a run returns as many thumbnails as were missing, so every needed format was written.
  Then for any attachment that carries the metadata left by that run (the object itself, or
  the row read again), the resolver returns the empty list, and a second call of
  \<^verbatim>\<open>ensure_thumbnails\<close> returns 0 and changes nothing.
\<close>

theorem second_run_writes_nothing:
  assumes run: "ensure_thumbnails E a w = (Inr n, a', w')"
    and full: "n = int (length (missing_thumbnails (catalogue E) a))"
    and seen: "thumbnail_metadata b = thumbnail_metadata a'"
  shows "missing_thumbnails (catalogue E) b = [] \<and> ensure_thumbnails E b v = (Inr 0, b, v)"
proof -
  from ensure_thumbnails_result[OF run] obtain new where new:
    "a' = a\<lparr>thumbnail_metadata := thumbnail_metadata a @ new\<rparr>"
    "n = int (length new)"
    "list_all2 same_format (take (length new) (missing_thumbnails (catalogue E) a)) new"
    by blast
  from new(2) full have "length new = length (missing_thumbnails (catalogue E) a)" by simp
  with new(3) have all: "list_all2 same_format (missing_thumbnails (catalogue E) a) new" by simp
  from seen new(1) have "thumbnail_metadata b = thumbnail_metadata a @ new" by simp
  from missing_thumbnails_after_all[OF all this]
  have none: "missing_thumbnails (catalogue E) b = []" .
  then show ?thesis by (simp add: ensure_thumbnails_def)
qed

theorem second_run_writes_nothing_witness:
  "ensure_thumbnails env_ok att0 world0 =
     (Inr 2, att0\<lparr>thumbnail_metadata := [stored_jpg, stored_webp]\<rparr>, world_done) \<and>
   (2::int) = int (length (missing_thumbnails (catalogue env_ok) att0)) \<and>
   missing_thumbnails (catalogue env_ok) (att0\<lparr>thumbnail_metadata := [stored_jpg, stored_webp]\<rparr>) = [] \<and>
   ensure_thumbnails env_ok (att0\<lparr>thumbnail_metadata := [stored_jpg, stored_webp]\<rparr>) world_done =
     (Inr 0, att0\<lparr>thumbnail_metadata := [stored_jpg, stored_webp]\<rparr>, world_done)"
proof -
  have full: "(2::int) = int (length (missing_thumbnails (catalogue env_ok) att0))"
    by (simp add: missing_thumbnails_def concrete_defs)
  from second_run_writes_nothing[OF run_ok full refl, of world_done] run_ok full
  show ?thesis by simp
qed

section \<open>The resize never enlarges\<close>








end
